theory Spec2Isabelle
  imports Complex_Main
begin

section \<open>JavaScript values used by the middleware\<close>

text \<open>
  The threshold \<open>max\<close> reaches the decision code as an arbitrary JavaScript value: the
  source tests its truthiness (\<open>max && ...\<close>), subtracts the count from it, adds one to
  it and compares it with the count. The values modelled are \<open>undefined\<close>, \<open>null\<close>,
  the booleans, the integers and \<open>NaN\<close>; strings and objects are left out, so \<open>+\<close> is
  always numeric addition here. A number is a double: \<open>JNum n\<close> is the double whose value
  is the integer \<open>n\<close>, and a sum or a difference is rounded to the nearest double
  (\<open>to_double\<close>), which changes nothing up to \<open>2^53\<close>. Infinities are left out: the
  numbers stay far below the largest double. Counts, time stamps and durations are
  integers (milliseconds for times).
\<close>

datatype jsval = JUndefined | JNull | JBool bool | JNum int | JNaN

text \<open>ToBoolean: what \<open>if (v)\<close> and \<open>v && ...\<close> test.\<close>

fun truthy :: "jsval \<Rightarrow> bool" where
  "truthy JUndefined = False"
| "truthy JNull = False"
| "truthy (JBool b) = b"
| "truthy (JNum n) = (n \<noteq> 0)"
| "truthy JNaN = False"

text \<open>ToNumber; \<open>None\<close> stands for \<open>NaN\<close>.\<close>

fun ToNumber :: "jsval \<Rightarrow> int option" where
  "ToNumber JUndefined = None"
| "ToNumber JNull = Some 0"
| "ToNumber (JBool b) = Some (if b then 1 else 0)"
| "ToNumber (JNum n) = Some n"
| "ToNumber JNaN = None"

fun of_number :: "int option \<Rightarrow> jsval" where
  "of_number None = JNaN"
| "of_number (Some n) = JNum n"

text \<open>The number of binary digits of a positive integer.\<close>

function bit_length :: "int \<Rightarrow> nat" where
  "bit_length n = (if n \<le> 0 then 0 else Suc (bit_length (n div 2)))"
  by pat_completeness auto
termination
  by (relation "measure nat") auto

declare bit_length.simps [simp del]

text \<open>
  The double nearest to an integer: 53 significant bits, round to nearest, ties to the
  even significand. An integer of magnitude at most \<open>2^53\<close> is a double; above, the
  lowest \<open>bit_length - 53\<close> bits are rounded away.
\<close>

definition to_double :: "int \<Rightarrow> int" where
  "to_double n =
     (if \<bar>n\<bar> \<le> 2 ^ 53 then n
      else
        (let ulp = 2 ^ (bit_length \<bar>n\<bar> - 53);
             q = \<bar>n\<bar> div ulp;
             r = \<bar>n\<bar> mod ulp;
             q' = (if ulp < 2 * r \<or> (2 * r = ulp \<and> odd q) then q + 1 else q)
         in sgn n * (q' * ulp)))"

fun arith :: "(int \<Rightarrow> int \<Rightarrow> int) \<Rightarrow> jsval \<Rightarrow> jsval \<Rightarrow> jsval" where
  "arith f a b =
     (case ToNumber a of
        None \<Rightarrow> JNaN
      | Some x \<Rightarrow> (case ToNumber b of None \<Rightarrow> JNaN | Some y \<Rightarrow> JNum (f x y)))"

text \<open>\<open>a - b\<close> and \<open>a + b\<close> (no string operand exists in this model), rounded as
  doubles are, and \<open>Math.max(a, b)\<close>, which returns one of its arguments.\<close>

definition js_minus :: "jsval \<Rightarrow> jsval \<Rightarrow> jsval" where
  "js_minus a b = arith (\<lambda>x y. to_double (x - y)) a b"

definition js_plus :: "jsval \<Rightarrow> jsval \<Rightarrow> jsval" where
  "js_plus a b = arith (\<lambda>x y. to_double (x + y)) a b"

definition Math_max :: "jsval \<Rightarrow> jsval \<Rightarrow> jsval" where
  "Math_max a b = arith max a b"

text \<open>\<open>a === b\<close>: same type and same value, and \<open>NaN\<close> equals nothing.\<close>

fun strict_eq :: "jsval \<Rightarrow> jsval \<Rightarrow> bool" where
  "strict_eq JNaN _ = False"
| "strict_eq _ JNaN = False"
| "strict_eq a b = (a = b)"

text \<open>\<open>a > b\<close> on values without strings: both sides go through ToNumber, and a
  comparison with \<open>NaN\<close> is false.\<close>

fun js_gt :: "jsval \<Rightarrow> jsval \<Rightarrow> bool" where
  "js_gt a b =
     (case ToNumber a of
        None \<Rightarrow> False
      | Some x \<Rightarrow> (case ToNumber b of None \<Rightarrow> False | Some y \<Rightarrow> y < x))"

text \<open>\<open>Math.ceil(ms / 1000)\<close> for an integer number of milliseconds, computed on
  integers (\<open>div\<close> rounds down); \<open>ceil_seconds_real\<close> below shows it is the ceiling
  of the real quotient, which is what the double quotient gives for clock values and
  window lengths (far below \<open>2^53\<close> ms).\<close>

definition ceil_seconds :: "int \<Rightarrow> int" where
  "ceil_seconds ms = - ((- ms) div 1000)"

section \<open>Errors, plain values and promises\<close>

datatype jserror = Error string

text \<open>
  A key generator or a threshold function returns either a plain value or a promise.
  Every promise is taken to settle: it is fulfilled with a value or rejected with a reason.
\<close>

datatype 'a deferred = Plain 'a | Fulfilled 'a | Rejected jserror

text \<open>
  \<open>isPromise(x) ? x : Promise.resolve(x)\<close> and \<open>Promise.resolve(x)\<close>: what the
  \<open>then\<close> callback receives (\<open>Inr\<close>) or what the \<open>catch\<close> callback receives (\<open>Inl\<close>).
\<close>

fun settle :: "'a deferred \<Rightarrow> jserror + 'a" where
  "settle (Plain v) = Inr v"
| "settle (Fulfilled v) = Inr v"
| "settle (Rejected e) = Inl e"

section \<open>Requests, options and observable events\<close>

text \<open>What the store does when \<open>incr(key, cb)\<close> is called for this request: it throws,
  or it calls back with an error, or it calls back with the count after the increment and
  the reset time (\<open>Some t\<close> for a \<open>Date\<close> at \<open>t\<close> ms, \<open>None\<close> for anything that is not a
  \<open>Date\<close>).\<close>

datatype incr_outcome = IncrThrows jserror | IncrError jserror | IncrOk int "int option"

text \<open>
  The world of one call \<open>rateLimit(req, res, next)\<close>: the request's address, the two reads
  of \<open>res.headersSent\<close> (line 86 and line 141), the clock read by \<open>new Date()\<close>, the
  store's answer to this request's \<open>incr\<close>, and the value that \<open>next(err)\<close> returns
  (\<open>undefined\<close> under Express).
\<close>

record request =
  ip :: string
  headersSent :: bool
  headersSent_block :: bool
  now :: int
  incr_result :: incr_outcome
  next_returns :: jsval

datatype max_option = MaxConst jsval | MaxFunction "request \<Rightarrow> jsval deferred"

datatype handler_option = DefaultHandler | CustomHandler

text \<open>What \<open>typeof store.m === "function"\<close> gives for the three methods of a store.\<close>

record counter_store =
  incr_is_function :: bool
  resetKey_is_function :: bool
  decrement_is_function :: bool

text \<open>
  The options object after \<open>Object.assign(defaults, options)\<close>. A record update of
  \<open>default_options\<close> is the merge: a field the caller does not give keeps its default.
  \<open>store = None\<close> is a falsy \<open>options.store\<close>. The retired options \<open>global\<close>,
  \<open>delayMs\<close> and \<open>delayAfter\<close> have no default, so they start as \<open>undefined\<close>.
\<close>

record options =
  windowMs :: int
  max_opt :: max_option
  message :: string
  statusCode :: int
  headers :: bool
  skipFailedRequests :: bool
  skipSuccessfulRequests :: bool
  keyGenerator :: "request \<Rightarrow> jserror + string deferred"
  skip :: "request \<Rightarrow> bool"
  handler :: handler_option
  store :: "counter_store option"
  global_opt :: jsval
  delayMs :: jsval
  delayAfter :: jsval

definition default_options :: options where
  "default_options =
     \<lparr> windowMs = 60 * 1000,
       max_opt = MaxConst (JNum 5),
       message = ''Too many requests, please try again later.'',
       statusCode = 429,
       headers = True,
       skipFailedRequests = False,
       skipSuccessfulRequests = False,
       keyGenerator = (\<lambda>req. Inr (Plain (ip req))),
       skip = (\<lambda>req. False),
       handler = DefaultHandler,
       store = None,
       global_opt = JUndefined,
       delayMs = JUndefined,
       delayAfter = JUndefined \<rparr>"

text \<open>The verdict object assigned to \<open>req.rateLimit\<close>.\<close>

record verdict =
  limit :: jsval
  current :: int
  remaining :: jsval
  resetTime :: "int option"

text \<open>A header value: a JavaScript value, or the GMT string of an instant.\<close>

datatype header_value = HVal jsval | HGMTString int

text \<open>The listeners the middleware registers on the response; each closes over the key.
  The first three belong to \<open>skipFailedRequests\<close>, the last to
  \<open>skipSuccessfulRequests\<close>.\<close>

datatype listener =
    FailedFinish string
  | FailedClose string
  | FailedError string
  | SuccessfulFinish string

text \<open>
  The calls the middleware makes on its collaborators, in the order they happen.
  \<open>Throw e\<close> is the middleware call itself ending with exception \<open>e\<close>.
  \<open>UnhandledRejection e\<close> is the callback \<open>max => {...}\<close> ending with exception
  \<open>e\<close>: the promise of line 78 is rejected, nothing handles it, and nothing more of the
  callback runs. The calls \<open>res.on\<close>, \<open>onLimitReached\<close>, \<open>handler\<close>, \<open>next\<close> and
  \<open>store.decrement\<close> are taken to return normally.
\<close>

datatype event =
    Next
  | NextErr jserror
  | Throw jserror
  | StoreIncr string
  | SetRateLimit verdict
  | SetHeader string header_value
  | ResOn string listener
  | OnLimitReached
  | CallHandler
  | ResStatus int
  | ResSend string
  | StoreDecrement string
  | UnhandledRejection jserror

section \<open>The middleware\<close>

text \<open>Lines 71-74: \<open>typeof options.max === "function" ? options.max(req, res) : options.max\<close>.\<close>

definition maxResult :: "options \<Rightarrow> request \<Rightarrow> jsval deferred" where
  "maxResult opts req =
     (case max_opt opts of MaxFunction f \<Rightarrow> f req | MaxConst v \<Rightarrow> Plain v)"

text \<open>Lines 79-84.\<close>

definition rateLimit_verdict :: "jsval \<Rightarrow> int \<Rightarrow> int option \<Rightarrow> verdict" where
  "rateLimit_verdict mx cur rt =
     \<lparr> limit = mx,
       current = cur,
       remaining = Math_max (js_minus mx (JNum cur)) (JNum 0),
       resetTime = rt \<rparr>"

text \<open>
  \<open>res.setHeader(name, value)\<close> on the response of Node's \<open>http\<close> server, which is what
  Express hands to a middleware: it throws a \<open>TypeError\<close> when the value is
  \<open>undefined\<close>, and sets the header otherwise.
\<close>

definition setHeader :: "string \<Rightarrow> header_value \<Rightarrow> jserror + event" where
  "setHeader name v =
     (if v = HVal JUndefined then Inl (Error ''ERR_HTTP_INVALID_HEADER_VALUE'')
      else Inr (SetHeader name v))"

text \<open>Statements in sequence: the calls made until the first exception, and that
  exception if there is one.\<close>

fun perform :: "(jserror + event) list \<Rightarrow> event list \<times> jserror option" where
  "perform [] = ([], None)"
| "perform (Inl err # calls) = ([], Some err)"
| "perform (Inr e # calls) = (case perform calls of (es, r) \<Rightarrow> (e # es, r))"

text \<open>Lines 86-97: the headers written, and the exception that ended the block, if any.\<close>

definition write_headers :: "options \<Rightarrow> request \<Rightarrow> verdict \<Rightarrow> event list \<times> jserror option" where
  "write_headers opts req v =
     (if headers opts \<and> \<not> headersSent req then
        perform
          ([setHeader ''X-RateLimit-Limit'' (HVal (limit v)),
            setHeader ''X-RateLimit-Remaining'' (HVal (remaining v))]
           @ (case resetTime v of
                Some t \<Rightarrow>
                  [setHeader ''Date'' (HGMTString (now req)),
                   setHeader ''X-RateLimit-Reset'' (HVal (JNum (ceil_seconds t)))]
              | None \<Rightarrow> []))
      else ([], None))"

text \<open>Lines 99-134: the listeners registered for skip accounting.\<close>

definition register_listeners :: "options \<Rightarrow> string \<Rightarrow> event list" where
  "register_listeners opts key =
     (if skipFailedRequests opts \<or> skipSuccessfulRequests opts then
        (if skipFailedRequests opts then
           [ResOn ''finish'' (FailedFinish key),
            ResOn ''close'' (FailedClose key),
            ResOn ''error'' (FailedError key)]
         else [])
        @ (if skipSuccessfulRequests opts then
             [ResOn ''finish'' (SuccessfulFinish key)]
           else [])
      else [])"

text \<open>Lines 23-25 for the default handler; a custom handler is opaque.\<close>

definition call_handler :: "options \<Rightarrow> event list" where
  "call_handler opts =
     CallHandler #
     (case handler opts of
        DefaultHandler \<Rightarrow> [ResStatus (statusCode opts), ResSend (message opts)]
      | CustomHandler \<Rightarrow> [])"

text \<open>Lines 136-150: the notification, then block or allow. The value of
  \<open>Retry-After\<close> is a number, which \<open>setHeader\<close> accepts.\<close>

definition decide :: "options \<Rightarrow> request \<Rightarrow> jsval \<Rightarrow> int \<Rightarrow> event list" where
  "decide opts req mx cur =
     (if truthy mx \<and> strict_eq (JNum cur) (js_plus mx (JNum 1)) then [OnLimitReached] else [])
     @ (if truthy mx \<and> js_gt (JNum cur) mx then
          (if headers opts \<and> \<not> headersSent_block req then
             [SetHeader ''Retry-After'' (HVal (JNum (ceil_seconds (windowMs opts))))]
           else [])
          @ call_handler opts
        else [Next])"

text \<open>Lines 78-151: the callback \<open>max => {...}\<close>. Nothing in it catches an
  exception of \<open>setHeader\<close>.\<close>

definition on_max :: "options \<Rightarrow> request \<Rightarrow> string \<Rightarrow> int \<Rightarrow> int option \<Rightarrow> jsval \<Rightarrow> event list" where
  "on_max opts req key cur rt mx =
     SetRateLimit (rateLimit_verdict mx cur rt) #
     (case write_headers opts req (rateLimit_verdict mx cur rt) of
        (hs, Some err) \<Rightarrow> hs @ [UnhandledRejection err]
      | (hs, None) \<Rightarrow> hs @ register_listeners opts key @ decide opts req mx cur)"

text \<open>
  Lines 71-78, after a successful increment:
  \<open>Promise.resolve(maxResult).catch(next).then(max => {...})\<close>. A rejected threshold runs
  \<open>next(err)\<close>; the promise that \<open>catch\<close> returns is then fulfilled with what
  \<open>next\<close> returned, and the \<open>then\<close> callback runs with that value as \<open>max\<close>.
\<close>

definition after_incr :: "options \<Rightarrow> request \<Rightarrow> string \<Rightarrow> int \<Rightarrow> int option \<Rightarrow> event list" where
  "after_incr opts req key cur rt =
     (case settle (maxResult opts req) of
        Inl err \<Rightarrow> NextErr err # on_max opts req key cur rt (next_returns req)
      | Inr mx \<Rightarrow> on_max opts req key cur rt mx)"

text \<open>
  Lines 65-69 and 153-154: the callback \<open>key => {...}\<close>. An exception thrown by
  \<open>incr\<close> rejects the chain and reaches the final \<open>catch(err => next(err))\<close>.
\<close>

definition on_key :: "options \<Rightarrow> request \<Rightarrow> string \<Rightarrow> event list" where
  "on_key opts req key =
     StoreIncr key #
     (case incr_result req of
        IncrThrows err \<Rightarrow> [NextErr err]
      | IncrError err \<Rightarrow> [NextErr err]
      | IncrOk cur rt \<Rightarrow> after_incr opts req key cur rt)"

text \<open>
  Lines 53-155. The key generator is called outside the promise chain and outside any
  \<open>try\<close>, so an exception it throws leaves \<open>rateLimit\<close>.
\<close>

definition rateLimit :: "options \<Rightarrow> request \<Rightarrow> event list" where
  "rateLimit opts req =
     (if skip opts req then [Next]
      else
        (case keyGenerator opts req of
           Inl err \<Rightarrow> [Throw err]
         | Inr keyValue \<Rightarrow>
             (case settle keyValue of
                Inl err \<Rightarrow> [NextErr err]
              | Inr key \<Rightarrow> on_key opts req key)))"

section \<open>Construction\<close>

text \<open>Modelled from the spec: \<open>MemoryStore\<close> (\<open>./memory-store\<close>) is not among the
  sources; the spec's CounterStore exposes increment, decrement and reset, so the default
  store has all three methods.\<close>

definition MemoryStore :: "int \<Rightarrow> counter_store" where
  "MemoryStore windowMs' =
     \<lparr> incr_is_function = True, resetKey_is_function = True, decrement_is_function = True \<rparr>"

text \<open>Lines 44-51: the first retired option that is truthy, in the order of the array.\<close>

fun removed_option :: "(string \<times> jsval) list \<Rightarrow> string option" where
  "removed_option [] = None"
| "removed_option ((key, v) # rest) = (if truthy v then Some key else removed_option rest)"

text \<open>
  Lines 5-51 and 162: \<open>RateLimit(options)\<close> throws an \<open>Error\<close> with a message
  (\<open>Inl\<close>), or returns the middleware, which is \<open>rateLimit\<close> closed over the
  final options (\<open>Inr\<close>).
\<close>

fun RateLimit :: "options \<Rightarrow> string + options" where
  "RateLimit options =
     (let st = (case store options of Some s \<Rightarrow> s | None \<Rightarrow> MemoryStore (windowMs options)) in
      if \<not> incr_is_function st \<or>
         \<not> resetKey_is_function st \<or>
         (skipFailedRequests options \<and> \<not> decrement_is_function st)
      then Inl ''The store is not valid.''
      else
        (case removed_option
                [(''global'', global_opt options),
                 (''delayMs'', delayMs options),
                 (''delayAfter'', delayAfter options)] of
           Some key \<Rightarrow> Inl (''The '' @ key @ '' option was removed from express-rate-limit v3.'')
         | None \<Rightarrow> Inr (options\<lparr>store := Some st\<rparr>)))"

section \<open>Skip accounting: what the registered listeners do\<close>

text \<open>
  A completion signal of the response together with the response state its listeners
  read: \<open>res.statusCode\<close> at \<open>finish\<close>, \<open>res.finished\<close> at \<open>close\<close>.
\<close>

datatype signal = Finish int | Close bool | ErrorSignal

fun signal_name :: "signal \<Rightarrow> string" where
  "signal_name (Finish statusCode') = ''finish''"
| "signal_name (Close finished) = ''close''"
| "signal_name ErrorSignal = ''error''"

text \<open>Lines 103-109: \<open>decrementKey\<close> on the latch \<open>decremented\<close>; it returns the calls
  made and the new latch.\<close>

definition decrementKey :: "string \<Rightarrow> bool \<Rightarrow> event list \<times> bool" where
  "decrementKey key decremented =
     (if \<not> decremented then ([StoreDecrement key], True) else ([], decremented))"

text \<open>Lines 112-132: the bodies of the four listeners. A listener only ever receives the
  signal it was registered for; the last equation covers the other pairs.\<close>

fun run_listener :: "listener \<Rightarrow> signal \<Rightarrow> bool \<Rightarrow> event list \<times> bool" where
  "run_listener (FailedFinish key) (Finish statusCode') decremented =
     (if statusCode' \<ge> 400 then decrementKey key decremented else ([], decremented))"
| "run_listener (FailedClose key) (Close finished) decremented =
     (if \<not> finished then decrementKey key decremented else ([], decremented))"
| "run_listener (FailedError key) ErrorSignal decremented = decrementKey key decremented"
| "run_listener (SuccessfulFinish key) (Finish statusCode') decremented =
     (if statusCode' < 400 then ([StoreDecrement key], decremented) else ([], decremented))"
| "run_listener _ _ decremented = ([], decremented)"

text \<open>The listeners a trace registered, in registration order.\<close>

fun registered :: "event list \<Rightarrow> (string \<times> listener) list" where
  "registered [] = []"
| "registered (ResOn name l # es) = (name, l) # registered es"
| "registered (_ # es) = registered es"

text \<open>\<open>res.emit(signal)\<close>: the listeners registered under the signal's name run in
  registration order, sharing the latch.\<close>

fun emit :: "(string \<times> listener) list \<Rightarrow> signal \<Rightarrow> bool \<Rightarrow> event list \<times> bool" where
  "emit [] s decremented = ([], decremented)"
| "emit ((name, l) # ls) s decremented =
     (if name = signal_name s then
        (case run_listener l s decremented of
           (es, d') \<Rightarrow> (case emit ls s d' of (es', d'') \<Rightarrow> (es @ es', d'')))
      else emit ls s decremented)"

fun emit_all :: "(string \<times> listener) list \<Rightarrow> signal list \<Rightarrow> bool \<Rightarrow> event list" where
  "emit_all ls [] decremented = []"
| "emit_all ls (s # ss) decremented =
     (case emit ls s decremented of (es, d') \<Rightarrow> es @ emit_all ls ss d')"

text \<open>One request from the call of the middleware to the end of its response: the
  middleware's own calls, then the calls its listeners make as the signals fire. The latch
  starts \<open>false\<close> (line 103).\<close>

definition request_lifecycle :: "options \<Rightarrow> request \<Rightarrow> signal list \<Rightarrow> event list" where
  "request_lifecycle opts req signals =
     rateLimit opts req @ emit_all (registered (rateLimit opts req)) signals False"

section \<open>Reading a trace\<close>

fun is_decrement :: "event \<Rightarrow> bool" where
  "is_decrement (StoreDecrement key) = True"
| "is_decrement _ = False"

definition decrements :: "event list \<Rightarrow> nat" where
  "decrements tr = length (filter is_decrement tr)"

definition notifications :: "event list \<Rightarrow> nat" where
  "notifications tr = count_list tr OnLimitReached"

fun is_header :: "event \<Rightarrow> bool" where
  "is_header (SetHeader name v) = True"
| "is_header _ = False"

fun is_verdict :: "event \<Rightarrow> bool" where
  "is_verdict (SetRateLimit v) = True"
| "is_verdict _ = False"

text \<open>The values written to the header \<open>name\<close>, in order.\<close>

fun header_values :: "string \<Rightarrow> event list \<Rightarrow> header_value list" where
  "header_values name [] = []"
| "header_values name (SetHeader n v # es) =
     (if n = name then v # header_values name es else header_values name es)"
| "header_values name (_ # es) = header_values name es"

section \<open>An example request\<close>

text \<open>The sixth request of a window under the default options (threshold 5, window
  60 s), arriving 500 ms before the window ends.\<close>

definition example_request :: request where
  "example_request =
     \<lparr> ip = ''10.0.0.7'', headersSent = False, headersSent_block = False,
       now = 1000000, incr_result = IncrOk 6 (Some 1000500), next_returns = JUndefined \<rparr>"

text \<open>Seven requests of one key in one window, counted 1 to 7 by the store.\<close>

definition example_window :: "request list" where
  "example_window =
     map (\<lambda>c. example_request\<lparr>incr_result := IncrOk c (Some 1000500)\<rparr>) [1, 2, 3, 4, 5, 6, 7]"

text \<open>The example request, and a later request of the same key that the store counts 6
  again.\<close>

definition example_repeat :: "request list" where
  "example_repeat = [example_request, example_request\<lparr>now := 1000200\<rparr>]"

section \<open>Auxiliary facts\<close>

lemma ceil_seconds_real: "ceil_seconds ms = \<lceil>real_of_int ms / 1000\<rceil>"
proof -
  have "\<lfloor>real_of_int (- ms) / real_of_int 1000\<rfloor> = (- ms) div 1000"
    by (rule floor_divide_of_int_eq)
  then show ?thesis
    by (simp add: ceil_seconds_def ceiling_def)
qed

lemma to_double_exact: "\<bar>n\<bar> \<le> 2 ^ 53 \<Longrightarrow> to_double n = n"
  by (simp add: to_double_def)

lemma rateLimit_counted:
  assumes "\<not> skip opts req"
    and "keyGenerator opts req = Inr kv"
    and "settle kv = Inr key"
    and "incr_result req = IncrOk cur rt"
    and "settle (maxResult opts req) = Inr mx"
  shows "rateLimit opts req = StoreIncr key # on_max opts req key cur rt mx"
  using assms by (simp add: rateLimit_def on_key_def after_incr_def)

lemma write_headers_only_headers:
  "write_headers opts req v = (hs, r) \<Longrightarrow> e \<in> set hs \<Longrightarrow> is_header e"
  by (auto simp: write_headers_def setHeader_def split: if_splits option.splits)

lemma write_headers_no_retry_after:
  "write_headers opts req v = (hs, r) \<Longrightarrow> header_values ''Retry-After'' hs = []"
  by (auto simp: write_headers_def setHeader_def split: if_splits option.splits)

lemma write_headers_returns:
  assumes "\<not> (headers opts \<and> \<not> headersSent req \<and> limit v = JUndefined)"
    and "remaining v \<noteq> JUndefined"
  shows "snd (write_headers opts req v) = None"
  using assms by (auto simp: write_headers_def setHeader_def split: option.splits)

lemma write_headers_throws:
  assumes "headers opts" and "\<not> headersSent req" and "limit v = JUndefined"
  shows "write_headers opts req v = ([], Some (Error ''ERR_HTTP_INVALID_HEADER_VALUE''))"
  using assms by (simp add: write_headers_def setHeader_def)

lemma remaining_defined: "remaining (rateLimit_verdict mx cur rt) \<noteq> JUndefined"
  by (simp add: rateLimit_verdict_def Math_max_def js_minus_def split: option.splits)

lemma on_max_returns:
  assumes "\<not> (headers opts \<and> \<not> headersSent req \<and> mx = JUndefined)"
  obtains hs where "\<forall>e \<in> set hs. is_header e"
    and "header_values ''Retry-After'' hs = []"
    and "on_max opts req key cur rt mx =
           SetRateLimit (rateLimit_verdict mx cur rt)
           # (hs @ register_listeners opts key) @ decide opts req mx cur"
proof -
  let ?v = "rateLimit_verdict mx cur rt"
  obtain hs r where w: "write_headers opts req ?v = (hs, r)"
    by (cases "write_headers opts req ?v")
  have "limit ?v = mx" by (simp add: rateLimit_verdict_def)
  with assms have "snd (write_headers opts req ?v) = None"
    using remaining_defined [of mx cur rt] by (intro write_headers_returns) auto
  with w have r: "r = None" by simp
  show ?thesis
  proof (rule that [of hs])
    show "\<forall>e \<in> set hs. is_header e"
      using w write_headers_only_headers by blast
    show "header_values ''Retry-After'' hs = []"
      using w by (rule write_headers_no_retry_after)
    show "on_max opts req key cur rt mx =
           SetRateLimit ?v # (hs @ register_listeners opts key) @ decide opts req mx cur"
      by (simp add: on_max_def w r)
  qed
qed

lemma on_max_cases:
  obtains (returns) hs where "\<forall>e \<in> set hs. is_header e"
    and "on_max opts req key cur rt mx =
           SetRateLimit (rateLimit_verdict mx cur rt)
           # (hs @ register_listeners opts key) @ decide opts req mx cur"
  | (throws) hs err where "\<forall>e \<in> set hs. is_header e"
    and "on_max opts req key cur rt mx =
           SetRateLimit (rateLimit_verdict mx cur rt) # hs @ [UnhandledRejection err]"
proof -
  let ?v = "rateLimit_verdict mx cur rt"
  obtain hs r where w: "write_headers opts req ?v = (hs, r)"
    by (cases "write_headers opts req ?v")
  then have h: "\<forall>e \<in> set hs. is_header e"
    using write_headers_only_headers by blast
  show ?thesis
  proof (cases r)
    case None
    with w h show ?thesis by (intro returns [of hs]) (simp_all add: on_max_def)
  next
    case (Some err)
    with w h show ?thesis by (intro throws [of hs err]) (simp_all add: on_max_def)
  qed
qed

lemma register_listeners_only_ResOn:
  "e \<in> set (register_listeners opts key) \<Longrightarrow> \<exists>name l. e = ResOn name l"
  by (auto simp: register_listeners_def split: if_splits)

lemma before_decide_events:
  assumes "\<forall>e \<in> set hs. is_header e"
    and "e \<in> set (hs @ register_listeners opts key)"
  shows "is_header e \<or> (\<exists>name l. e = ResOn name l)"
  using assms register_listeners_only_ResOn [of e opts key] by auto

lemma before_decide_quiet:
  assumes "\<forall>e \<in> set hs. is_header e"
  shows "Next \<notin> set (hs @ register_listeners opts key)"
    and "CallHandler \<notin> set (hs @ register_listeners opts key)"
    and "OnLimitReached \<notin> set (hs @ register_listeners opts key)"
    and "NextErr err \<notin> set (hs @ register_listeners opts key)"
  using before_decide_events [OF assms, of _ opts key] by fastforce+

lemma call_handler_quiet:
  "Next \<notin> set (call_handler opts)" "OnLimitReached \<notin> set (call_handler opts)"
  "NextErr err \<notin> set (call_handler opts)" "CallHandler \<in> set (call_handler opts)"
  by (auto simp: call_handler_def split: handler_option.splits)

lemma strict_eq_JNum [simp]: "strict_eq (JNum a) (JNum b) = (a = b)"
  by simp

text \<open>For a positive numeric threshold the two guards of lines 136 and 140 are tests on
  integers; \<open>T + 1\<close> is the sum as a double.\<close>

lemma decide_positive:
  "0 < T \<Longrightarrow>
   decide opts req (JNum T) cur =
     (if cur = to_double (T + 1) then [OnLimitReached] else [])
     @ (if T < cur then
          (if headers opts \<and> \<not> headersSent_block req then
             [SetHeader ''Retry-After'' (HVal (JNum (ceil_seconds (windowMs opts))))]
           else [])
          @ call_handler opts
        else [Next])"
  by (simp add: decide_def js_plus_def)

lemma decide_falsy: "\<not> truthy mx \<Longrightarrow> decide opts req mx cur = [Next]"
  by (simp add: decide_def)

lemma decide_no_verdict: "e \<in> set (decide opts req mx cur) \<Longrightarrow> \<not> is_verdict e"
  by (auto simp: decide_def call_handler_def split: if_splits handler_option.splits)

lemma decide_decides:
  "Next \<in> set (decide opts req mx cur) \<or> CallHandler \<in> set (decide opts req mx cur)"
  by (simp add: decide_def call_handler_def)

lemma header_not_verdict: "is_header e \<Longrightarrow> \<not> is_verdict e"
  by (cases e) auto

lemma on_max_one_verdict:
  obtains rest where
    "on_max opts req key cur rt mx = SetRateLimit (rateLimit_verdict mx cur rt) # rest"
    and "\<forall>e \<in> set rest. \<not> is_verdict e"
proof (cases rule: on_max_cases [of opts req key cur rt mx])
  case (returns hs)
  have "\<not> is_verdict e" if "e \<in> set ((hs @ register_listeners opts key) @ decide opts req mx cur)" for e
  proof -
    from that consider "e \<in> set hs" | "e \<in> set (register_listeners opts key)"
      | "e \<in> set (decide opts req mx cur)"
      by auto
    then show ?thesis
    proof cases
      case 1
      with returns(1) show ?thesis by (simp add: header_not_verdict)
    next
      case 2
      then show ?thesis using register_listeners_only_ResOn by fastforce
    next
      case 3
      then show ?thesis by (rule decide_no_verdict)
    qed
  qed
  then have "\<forall>e \<in> set ((hs @ register_listeners opts key) @ decide opts req mx cur). \<not> is_verdict e"
    by blast
  with returns(2) show ?thesis by (rule that)
next
  case (throws hs err)
  have "\<forall>e \<in> set (hs @ [UnhandledRejection err]). \<not> is_verdict e"
    using throws(1) by (auto simp: header_not_verdict)
  with throws(2) show ?thesis by (rule that)
qed


lemma example_trace:
  "rateLimit default_options example_request =
   [StoreIncr ''10.0.0.7'',
    SetRateLimit \<lparr>limit = JNum 5, current = 6, remaining = JNum 0, resetTime = Some 1000500\<rparr>,
    SetHeader ''X-RateLimit-Limit'' (HVal (JNum 5)),
    SetHeader ''X-RateLimit-Remaining'' (HVal (JNum 0)),
    SetHeader ''Date'' (HGMTString 1000000),
    SetHeader ''X-RateLimit-Reset'' (HVal (JNum 1001)),
    OnLimitReached,
    SetHeader ''Retry-After'' (HVal (JNum 60)),
    CallHandler, ResStatus 429, ResSend ''Too many requests, please try again later.'']"
  by (simp add: rateLimit_def default_options_def example_request_def on_key_def after_incr_def
      maxResult_def on_max_def rateLimit_verdict_def write_headers_def setHeader_def
      register_listeners_def decide_def call_handler_def js_plus_def js_minus_def Math_max_def
      ceil_seconds_def to_double_def)

section \<open>The verdict's \<open>remaining\<close> field\<close>




section \<open>Allow or block\<close>

text \<open>
  C1. For a request that passes the skip predicate, whose key resolves and whose increment
  succeeds, and whose threshold resolves to a positive number \<open>T\<close>: if the count after
  the increment is at most \<open>T\<close>, the middleware ends by calling \<open>next()\<close>, exactly
  once, and does not call the handler; if the count is greater than \<open>T\<close>, it calls the
  handler and does not call \<open>next()\<close> itself. In neither case does it call \<open>next(err)\<close>.
\<close>

theorem threshold_allows_or_blocks:
  assumes "\<not> skip opts req"
    and "keyGenerator opts req = Inr kv"
    and "settle kv = Inr key"
    and "incr_result req = IncrOk cur rt"
    and "settle (maxResult opts req) = Inr (JNum T)"
    and "0 < T"
  shows "(cur \<le> T \<longrightarrow>
            last (rateLimit opts req) = Next
          \<and> count_list (rateLimit opts req) Next = 1
          \<and> CallHandler \<notin> set (rateLimit opts req))
       \<and> (T < cur \<longrightarrow>
            CallHandler \<in> set (rateLimit opts req)
          \<and> Next \<notin> set (rateLimit opts req))
       \<and> (\<forall>err. NextErr err \<notin> set (rateLimit opts req))"
proof -
  let ?v = "rateLimit_verdict (JNum T) cur rt"
  obtain hs where hs: "\<forall>e \<in> set hs. is_header e"
    and om: "on_max opts req key cur rt (JNum T) =
      SetRateLimit ?v # (hs @ register_listeners opts key) @ decide opts req (JNum T) cur"
    by (rule on_max_returns [of opts req "JNum T" key cur rt]) auto
  let ?pre = "hs @ register_listeners opts key"
  let ?n = "if cur = to_double (T + 1) then [OnLimitReached] else []"
  have tr: "rateLimit opts req = StoreIncr key # SetRateLimit ?v # ?pre @ decide opts req (JNum T) cur"
    using rateLimit_counted [OF assms(1-5)] by (simp add: om)
  have dec: "decide opts req (JNum T) cur =
     ?n @ (if T < cur then
          (if headers opts \<and> \<not> headersSent_block req then
             [SetHeader ''Retry-After'' (HVal (JNum (ceil_seconds (windowMs opts))))]
           else [])
          @ call_handler opts
        else [Next])"
    using decide_positive [OF assms(6)] .
  have allow: "last (rateLimit opts req) = Next \<and> count_list (rateLimit opts req) Next = 1
      \<and> CallHandler \<notin> set (rateLimit opts req)" if "cur \<le> T"
  proof -
    from that have d: "decide opts req (JNum T) cur = ?n @ [Next]" by (simp add: dec)
    have "count_list ?pre Next = 0"
      using before_decide_quiet(1) [OF hs] by (simp only: count_list_0_iff not_False_eq_True)
    then show ?thesis using before_decide_quiet(2) [OF hs, of opts key] by (simp add: tr d)
  qed
  have block: "CallHandler \<in> set (rateLimit opts req) \<and> Next \<notin> set (rateLimit opts req)"
    if "T < cur"
    using that before_decide_quiet(1) [OF hs, of opts key] call_handler_quiet(1,4) [of opts]
    by (auto simp: tr dec)
  have noerr: "NextErr err \<notin> set (rateLimit opts req)" for err
    using before_decide_quiet(4) [OF hs, of err opts key] call_handler_quiet(3) [of err opts]
    by (auto simp: tr dec)
  from allow block noerr show ?thesis by blast
qed

theorem threshold_allows_or_blocks_witness:
  "last (rateLimit default_options (example_request\<lparr>incr_result := IncrOk 5 None\<rparr>)) = Next
   \<and> CallHandler \<notin> set (rateLimit default_options (example_request\<lparr>incr_result := IncrOk 5 None\<rparr>))
   \<and> CallHandler \<in> set (rateLimit default_options example_request)
   \<and> Next \<notin> set (rateLimit default_options example_request)"
proof -
  let ?r = "example_request\<lparr>incr_result := IncrOk 5 None\<rparr>"
  have a: "\<not> skip default_options ?r" "keyGenerator default_options ?r = Inr (Plain ''10.0.0.7'')"
    "settle (Plain ''10.0.0.7'') = Inr ''10.0.0.7''" "incr_result ?r = IncrOk 5 None"
    "settle (maxResult default_options ?r) = Inr (JNum 5)" "(0::int) < 5"
    by (simp_all add: default_options_def example_request_def maxResult_def)
  have b: "\<not> skip default_options example_request"
    "keyGenerator default_options example_request = Inr (Plain ''10.0.0.7'')"
    "settle (Plain ''10.0.0.7'') = Inr ''10.0.0.7''"
    "incr_result example_request = IncrOk 6 (Some 1000500)"
    "settle (maxResult default_options example_request) = Inr (JNum 5)" "(0::int) < 5"
    by (simp_all add: default_options_def example_request_def maxResult_def)
  from threshold_allows_or_blocks [OF a] threshold_allows_or_blocks [OF b]
  show ?thesis by simp
qed

lemma header_values_append:
  "header_values name (xs @ ys) = header_values name xs @ header_values name ys"
  by (induction name xs rule: header_values.induct) auto

lemma no_retry_after_before_decide:
  "header_values ''Retry-After'' hs = [] \<Longrightarrow>
   header_values ''Retry-After'' (hs @ register_listeners opts key) = []"
  by (simp add: header_values_append register_listeners_def)

section \<open>A falsy threshold\<close>

text \<open>
  C8 fails on the code. The threshold function resolves to \<open>undefined\<close> (a function
  that returns nothing), with the default options, so headers are enabled. The verdict is
  attached, then \<open>res.setHeader("X-RateLimit-Limit", undefined)\<close> (line 87) throws
  inside the callback, where nothing catches it: the middleware calls neither \<open>next()\<close>
  nor the handler, and the request is left without an answer.
\<close>

theorem undefined_threshold_never_answers:
  "\<not> truthy JUndefined
   \<and> rateLimit
       (default_options\<lparr>max_opt := MaxFunction (\<lambda>req. Fulfilled JUndefined)\<rparr>)
       example_request
     = [StoreIncr ''10.0.0.7'',
        SetRateLimit \<lparr>limit = JUndefined, current = 6, remaining = JNaN,
                       resetTime = Some 1000500\<rparr>,
        UnhandledRejection (Error ''ERR_HTTP_INVALID_HEADER_VALUE'')]
   \<and> Next \<notin> set (rateLimit
       (default_options\<lparr>max_opt := MaxFunction (\<lambda>req. Fulfilled JUndefined)\<rparr>)
       example_request)"
  by (simp add: rateLimit_def default_options_def example_request_def on_key_def after_incr_def
      maxResult_def on_max_def rateLimit_verdict_def write_headers_def setHeader_def
      js_minus_def Math_max_def)

text \<open>
  Apart from that case the guards \<open>max && ...\<close> of lines 136 and 140 do what C8 says:
  for a falsy threshold that is not \<open>undefined\<close>, or with headers disabled or already
  sent, the middleware ends by calling \<open>next()\<close>, exactly once; it calls neither the
  handler nor \<open>onLimitReached\<close>, and it writes no \<open>Retry-After\<close> header.
\<close>

lemma falsy_threshold_allows:
  assumes "\<not> skip opts req"
    and "keyGenerator opts req = Inr kv"
    and "settle kv = Inr key"
    and "incr_result req = IncrOk cur rt"
    and "settle (maxResult opts req) = Inr mx"
    and "\<not> truthy mx"
    and "\<not> (headers opts \<and> \<not> headersSent req \<and> mx = JUndefined)"
  shows "last (rateLimit opts req) = Next
       \<and> count_list (rateLimit opts req) Next = 1
       \<and> CallHandler \<notin> set (rateLimit opts req)
       \<and> OnLimitReached \<notin> set (rateLimit opts req)
       \<and> header_values ''Retry-After'' (rateLimit opts req) = []"
proof -
  let ?v = "rateLimit_verdict mx cur rt"
  obtain hs where hs: "\<forall>e \<in> set hs. is_header e"
    and ra: "header_values ''Retry-After'' hs = []"
    and om: "on_max opts req key cur rt mx =
      SetRateLimit ?v # (hs @ register_listeners opts key) @ decide opts req mx cur"
    using assms(7) by (rule on_max_returns [of opts req mx key cur rt])
  let ?pre = "hs @ register_listeners opts key"
  have tr: "rateLimit opts req = StoreIncr key # SetRateLimit ?v # ?pre @ [Next]"
    using rateLimit_counted [OF assms(1-5)] decide_falsy [OF assms(6)]
    by (simp add: om)
  have "count_list ?pre Next = 0"
    using before_decide_quiet(1) [OF hs] by (simp only: count_list_0_iff not_False_eq_True)
  moreover have "CallHandler \<notin> set ?pre" "OnLimitReached \<notin> set ?pre"
    using before_decide_quiet(2,3) [OF hs] by blast+
  moreover have "header_values ''Retry-After'' ?pre = []"
    using ra by (rule no_retry_after_before_decide)
  ultimately show ?thesis
    by (simp add: tr header_values_append)
qed

section \<open>The verdict is attached first\<close>

text \<open>
  C10. For a request that passes the skip predicate, whose key resolves to \<open>key\<close>, whose
  increment returns \<open>(cur, rt)\<close> and whose threshold resolves to \<open>mx\<close>: right after the
  increment the middleware assigns \<open>req.rateLimit = {limit: mx, current: cur, remaining:
  Math.max(mx - cur, 0), resetTime: rt}\<close>. Everything else comes later: every header the
  middleware writes and its call of \<open>next()\<close> or of the handler; no second verdict is
  assigned. The options \<open>headers\<close> and the outcome (allowed or blocked) are arbitrary.
  The decision is reached unless writing the headers throws (an \<open>undefined\<close> threshold
  with headers enabled and not yet sent).
\<close>

theorem verdict_attached_first:
  assumes "\<not> skip opts req"
    and "keyGenerator opts req = Inr kv"
    and "settle kv = Inr key"
    and "incr_result req = IncrOk cur rt"
    and "settle (maxResult opts req) = Inr mx"
  shows "\<exists>rest.
           rateLimit opts req =
             StoreIncr key
             # SetRateLimit \<lparr> limit = mx, current = cur,
                              remaining = Math_max (js_minus mx (JNum cur)) (JNum 0),
                              resetTime = rt \<rparr>
             # rest
         \<and> (\<forall>e \<in> set rest. \<not> is_verdict e)
         \<and> filter is_header (rateLimit opts req) = filter is_header rest
         \<and> (\<not> (headers opts \<and> \<not> headersSent req \<and> mx = JUndefined)
              \<longrightarrow> Next \<in> set rest \<or> CallHandler \<in> set rest)"
proof -
  let ?v = "rateLimit_verdict mx cur rt"
  obtain rest where om: "on_max opts req key cur rt mx = SetRateLimit ?v # rest"
    and nv: "\<forall>e \<in> set rest. \<not> is_verdict e"
    by (rule on_max_one_verdict)
  have tr: "rateLimit opts req = StoreIncr key # SetRateLimit ?v # rest"
    using rateLimit_counted [OF assms] by (simp add: om)
  have "Next \<in> set rest \<or> CallHandler \<in> set rest"
    if g: "\<not> (headers opts \<and> \<not> headersSent req \<and> mx = JUndefined)"
  proof -
    obtain hs where "\<forall>e \<in> set hs. is_header e"
      and "header_values ''Retry-After'' hs = []"
      and "on_max opts req key cur rt mx =
        SetRateLimit ?v # (hs @ register_listeners opts key) @ decide opts req mx cur"
      using g by (rule on_max_returns [of opts req mx key cur rt])
    with om have "rest = (hs @ register_listeners opts key) @ decide opts req mx cur"
      by simp
    then show ?thesis
      using decide_decides [of opts req mx cur] by auto
  qed
  with tr nv show ?thesis
    by (intro exI [of _ rest]) (simp add: rateLimit_verdict_def)
qed

theorem verdict_attached_first_witness:
  "\<exists>rest.
     rateLimit (default_options\<lparr>headers := False\<rparr>) example_request =
       StoreIncr ''10.0.0.7''
       # SetRateLimit \<lparr> limit = JNum 5, current = 6, remaining = JNum 0,
                        resetTime = Some 1000500 \<rparr>
       # rest
     \<and> (\<forall>e \<in> set rest. \<not> is_verdict e)
     \<and> (Next \<in> set rest \<or> CallHandler \<in> set rest)"
proof -
  let ?o = "default_options\<lparr>headers := False\<rparr>"
  have a: "\<not> skip ?o example_request"
    "keyGenerator ?o example_request = Inr (Plain ''10.0.0.7'')"
    "settle (Plain ''10.0.0.7'') = Inr ''10.0.0.7''"
    "incr_result example_request = IncrOk 6 (Some 1000500)"
    "settle (maxResult ?o example_request) = Inr (JNum 5)"
    by (simp_all add: default_options_def example_request_def maxResult_def)
  have "Math_max (js_minus (JNum 5) (JNum 6)) (JNum 0) = JNum 0"
    by (simp add: Math_max_def js_minus_def to_double_def)
  with verdict_attached_first [OF a] show ?thesis
    by auto
qed

lemma notifications_append:
  "notifications (xs @ ys) = notifications xs + notifications ys"
  by (induction xs) (simp_all add: notifications_def)

lemma notifications_none: "OnLimitReached \<notin> set xs \<Longrightarrow> notifications xs = 0"
  by (simp add: notifications_def)

lemma notifications_before_decide:
  "\<forall>e \<in> set hs. is_header e \<Longrightarrow> notifications (hs @ register_listeners opts key) = 0"
  using before_decide_quiet(3) by (rule notifications_none)

lemma notifications_call_handler: "notifications (call_handler opts) = 0"
  using call_handler_quiet(2) by (rule notifications_none)

lemma notifications_decide:
  assumes "0 < T" and "T < 2 ^ 53"
  shows "notifications (decide opts req (JNum T) cur) = (if cur = T + 1 then 1 else 0)"
proof -
  from assms have "to_double (T + 1) = T + 1"
    by (intro to_double_exact) simp
  then show ?thesis
    using assms(1)
    by (simp add: decide_positive notifications_append notifications_call_handler)
       (simp add: notifications_def)
qed

lemma notifications_request:
  assumes "\<not> skip opts req"
    and "keyGenerator opts req = Inr kv"
    and "settle kv = Inr key"
    and "incr_result req = IncrOk cur rt"
    and "settle (maxResult opts req) = Inr (JNum T)"
    and "0 < T"
    and "T < 2 ^ 53"
  shows "notifications (rateLimit opts req) = (if cur = T + 1 then 1 else 0)"
proof -
  let ?v = "rateLimit_verdict (JNum T) cur rt"
  obtain hs where hs: "\<forall>e \<in> set hs. is_header e"
    and "header_values ''Retry-After'' hs = []"
    and om: "on_max opts req key cur rt (JNum T) =
      SetRateLimit ?v # (hs @ register_listeners opts key) @ decide opts req (JNum T) cur"
    by (rule on_max_returns [of opts req "JNum T" key cur rt]) auto
  let ?pre = "hs @ register_listeners opts key"
  have tr: "rateLimit opts req = [StoreIncr key, SetRateLimit ?v] @ ?pre @ decide opts req (JNum T) cur"
    using rateLimit_counted [OF assms(1-5)] by (simp add: om)
  have head: "notifications [StoreIncr key, SetRateLimit ?v] = 0"
    by (simp add: notifications_def)
  have "notifications (rateLimit opts req) =
        notifications [StoreIncr key, SetRateLimit ?v]
        + (notifications ?pre + notifications (decide opts req (JNum T) cur))"
    by (simp only: tr notifications_append)
  also have "\<dots> = 0 + (0 + (if cur = T + 1 then 1 else 0))"
    by (simp only: head notifications_before_decide [OF hs] notifications_decide [OF assms(6,7)])
  finally show ?thesis by simp
qed

lemma count_list_distinct:
  "distinct xs \<Longrightarrow> count_list xs x = (if x \<in> set xs then 1 else 0)"
  by (induction xs) auto

text \<open>The requests of one window with the counts the store returned to them, position by
  position.\<close>

lemma notifications_window:
  assumes "0 < T" and "T < 2 ^ 53"
    and "list_all2
           (\<lambda>req c. \<not> skip opts req
                  \<and> (\<exists>kv. keyGenerator opts req = Inr kv \<and> settle kv = Inr key)
                  \<and> (\<exists>rt. incr_result req = IncrOk c rt)
                  \<and> settle (maxResult opts req) = Inr (JNum T))
           reqs cs"
  shows "notifications (concat (map (rateLimit opts) reqs)) = count_list cs (T + 1)"
  using assms(3)
proof (induction rule: list_all2_induct)
  case Nil
  then show ?case by (simp add: notifications_def)
next
  case (Cons req reqs c cs)
  from Cons.hyps(1) obtain kv rt where
    "\<not> skip opts req" "keyGenerator opts req = Inr kv" "settle kv = Inr key"
    "incr_result req = IncrOk c rt" "settle (maxResult opts req) = Inr (JNum T)"
    by blast
  then have "notifications (rateLimit opts req) = (if c = T + 1 then 1 else 0)"
    using assms(1,2) by (rule notifications_request)
  with Cons.IH show ?case
    by (simp add: notifications_append)
qed

section \<open>The limit-reached notification\<close>

text \<open>
  C6, as stated, does not hold: \<open>onLimitReached\<close> can be called more than once for one
  key in one window. With \<open>skipFailedRequests\<close> the example request, counted 6 under the
  threshold 5, is blocked with status 429 and calls \<open>onLimitReached\<close>; when its response
  finishes, the listener of lines 112-116 decrements the key, so the counter is back at
  5. The next request of the key is counted 6 again, and calls \<open>onLimitReached\<close> again.
\<close>

theorem limit_reached_twice_counterexample:
  "ResStatus 429 \<in> set (rateLimit (default_options\<lparr>skipFailedRequests := True\<rparr>) example_request)
   \<and> decrements
       (request_lifecycle (default_options\<lparr>skipFailedRequests := True\<rparr>) example_request
          [Finish 429]) = 1
   \<and> map incr_result example_repeat = [IncrOk 6 (Some 1000500), IncrOk 6 (Some 1000500)]
   \<and> notifications
       (concat (map (rateLimit (default_options\<lparr>skipFailedRequests := True\<rparr>)) example_repeat))
     = 2"
  by (simp add: request_lifecycle_def decrements_def notifications_def decrementKey_def
      example_repeat_def
      rateLimit_def default_options_def example_request_def on_key_def after_incr_def
      maxResult_def on_max_def rateLimit_verdict_def write_headers_def setHeader_def
      register_listeners_def decide_def call_handler_def js_plus_def js_minus_def Math_max_def
      ceil_seconds_def to_double_def)

text \<open>
  C6, amended. Take the requests of one key in one window, each passing the skip predicate
  and each with the positive threshold \<open>T\<close> (below \<open>2^53\<close>, so that \<open>T + 1\<close> is a
  double), and the counts the store returned to them. A request calls \<open>onLimitReached\<close>
  once if its count is \<open>T + 1\<close> and not at all if its count is smaller or greater. So
  the window sees one call for each request counted \<open>T + 1\<close>: exactly one call when the
  counts are pairwise distinct and \<open>T + 1\<close> is among them, as when nothing decrements or
  resets the counter in between, and none when \<open>T + 1\<close> is not among them.
\<close>

theorem limit_reached_once_per_window:
  assumes "0 < T" and "T < 2 ^ 53"
    and "list_all2
           (\<lambda>req c. \<not> skip opts req
                  \<and> (\<exists>kv. keyGenerator opts req = Inr kv \<and> settle kv = Inr key)
                  \<and> (\<exists>rt. incr_result req = IncrOk c rt)
                  \<and> settle (maxResult opts req) = Inr (JNum T))
           reqs cs"
  shows "notifications (concat (map (rateLimit opts) reqs)) = count_list cs (T + 1)
       \<and> (\<forall>i < length reqs.
            notifications (rateLimit opts (reqs ! i)) = (if cs ! i = T + 1 then 1 else 0))
       \<and> (distinct cs \<longrightarrow>
            notifications (concat (map (rateLimit opts) reqs))
              = (if T + 1 \<in> set cs then 1 else 0))"
proof -
  have total: "notifications (concat (map (rateLimit opts) reqs)) = count_list cs (T + 1)"
    using assms by (rule notifications_window)
  have each: "notifications (rateLimit opts (reqs ! i)) = (if cs ! i = T + 1 then 1 else 0)"
    if "i < length reqs" for i
  proof -
    from assms(3) that have
      "\<not> skip opts (reqs ! i)
       \<and> (\<exists>kv. keyGenerator opts (reqs ! i) = Inr kv \<and> settle kv = Inr key)
       \<and> (\<exists>rt. incr_result (reqs ! i) = IncrOk (cs ! i) rt)
       \<and> settle (maxResult opts (reqs ! i)) = Inr (JNum T)"
      by (rule list_all2_nthD)
    then obtain kv rt where
      "\<not> skip opts (reqs ! i)" "keyGenerator opts (reqs ! i) = Inr kv" "settle kv = Inr key"
      "incr_result (reqs ! i) = IncrOk (cs ! i) rt"
      "settle (maxResult opts (reqs ! i)) = Inr (JNum T)"
      by blast
    then show ?thesis
      using assms(1,2) by (rule notifications_request)
  qed
  have "notifications (concat (map (rateLimit opts) reqs)) = (if T + 1 \<in> set cs then 1 else 0)"
    if "distinct cs"
    using that total by (simp add: count_list_distinct)
  with total each show ?thesis by blast
qed

theorem limit_reached_once_per_window_witness:
  "notifications (concat (map (rateLimit default_options) example_window)) = 1
   \<and> notifications (rateLimit default_options (example_window ! 4)) = 0
   \<and> notifications (rateLimit default_options (example_window ! 5)) = 1
   \<and> notifications (rateLimit default_options (example_window ! 6)) = 0"
proof -
  have t: "(0::int) < 5" "(5::int) < 2 ^ 53" by simp_all
  have w: "list_all2
           (\<lambda>req c. \<not> skip default_options req
                  \<and> (\<exists>kv. keyGenerator default_options req = Inr kv \<and> settle kv = Inr ''10.0.0.7'')
                  \<and> (\<exists>rt. incr_result req = IncrOk c rt)
                  \<and> settle (maxResult default_options req) = Inr (JNum 5))
           example_window [1, 2, 3, 4, 5, 6, 7]"
    by (simp add: example_window_def default_options_def example_request_def maxResult_def)
  have l: "length example_window = 7"
    by (simp add: example_window_def)
  from limit_reached_once_per_window [OF t w] show ?thesis
    by (simp add: l)
qed

text \<open>Why the threshold stays below \<open>2^53\<close>: there \<open>max + 1\<close> is rounded back to
  \<open>max\<close>, and the test of line 136 holds for the request counted \<open>max\<close>.\<close>

lemma to_double_above_2_53: "to_double (2 ^ 53 + 1) = 2 ^ 53"
  by code_simp

lemma limit_reached_early_at_2_53:
  "notifications
     (rateLimit (default_options\<lparr>max_opt := MaxConst (JNum (2 ^ 53))\<rparr>)
        (example_request\<lparr>incr_result := IncrOk (2 ^ 53) None\<rparr>)) = 1"
proof -
  have "strict_eq (JNum (2 ^ 53)) (js_plus (JNum (2 ^ 53)) (JNum 1))"
    unfolding js_plus_def by (simp only: arith.simps ToNumber.simps option.case to_double_above_2_53 strict_eq_JNum)
  then have "decide (default_options\<lparr>max_opt := MaxConst (JNum (2 ^ 53))\<rparr>)
      (example_request\<lparr>incr_result := IncrOk (2 ^ 53) None\<rparr>) (JNum (2 ^ 53)) (2 ^ 53)
      = [OnLimitReached, Next]"
    by (simp add: decide_def)
  then show ?thesis
    by (simp add: rateLimit_def default_options_def example_request_def on_key_def after_incr_def
      maxResult_def on_max_def write_headers_def setHeader_def rateLimit_verdict_def
      register_listeners_def notifications_def Math_max_def js_minus_def to_double_def)
qed

lemma no_retry_after_in_call_handler: "header_values ''Retry-After'' (call_handler opts) = []"
  by (simp add: call_handler_def split: handler_option.splits)

lemma ceil_seconds_positive: "0 < ms \<Longrightarrow> 0 < ceil_seconds ms"
  unfolding ceil_seconds_def by linarith

section \<open>The \<open>Retry-After\<close> header\<close>

text \<open>
  C7, as stated, does not hold: the header does not carry the time left in the current
  window. The example request is blocked 500 ms before its window ends, so one second
  remains, and the middleware writes \<open>Retry-After: 60\<close>, the length of the window.
\<close>

theorem retry_after_remaining_window_counterexample:
  "\<not> skip default_options example_request
   \<and> incr_result example_request = IncrOk 6 (Some 1000500)
   \<and> settle (maxResult default_options example_request) = Inr (JNum 5)
   \<and> headers default_options
   \<and> \<not> headersSent_block example_request
   \<and> now example_request = 1000000
   \<and> ceil_seconds (1000500 - 1000000) = 1
   \<and> header_values ''Retry-After'' (rateLimit default_options example_request) = [HVal (JNum 60)]"
  by (simp add: example_trace)
     (simp add: default_options_def example_request_def maxResult_def ceil_seconds_def)

text \<open>
  C7, amended. For a blocked request (positive threshold \<open>T\<close>, count greater than \<open>T\<close>)
  with headers enabled and not yet sent when the request is blocked, the middleware writes
  exactly one \<open>Retry-After\<close> header, and its value is the length of the whole window
  \<open>windowMs\<close> in seconds, rounded up; it does not depend on the clock or on the reset
  time. The value is positive when \<open>windowMs\<close> is.
\<close>

theorem retry_after_is_window_length:
  assumes "\<not> skip opts req"
    and "keyGenerator opts req = Inr kv"
    and "settle kv = Inr key"
    and "incr_result req = IncrOk cur rt"
    and "settle (maxResult opts req) = Inr (JNum T)"
    and "0 < T"
    and "T < cur"
    and "headers opts"
    and "\<not> headersSent_block req"
  shows "header_values ''Retry-After'' (rateLimit opts req)
           = [HVal (JNum (ceil_seconds (windowMs opts)))]
       \<and> ceil_seconds (windowMs opts) = \<lceil>real_of_int (windowMs opts) / 1000\<rceil>
       \<and> (0 < windowMs opts \<longrightarrow> 0 < ceil_seconds (windowMs opts))"
proof -
  let ?v = "rateLimit_verdict (JNum T) cur rt"
  obtain hs where hs: "\<forall>e \<in> set hs. is_header e"
    and ra: "header_values ''Retry-After'' hs = []"
    and om: "on_max opts req key cur rt (JNum T) =
      SetRateLimit ?v # (hs @ register_listeners opts key) @ decide opts req (JNum T) cur"
    by (rule on_max_returns [of opts req "JNum T" key cur rt]) auto
  let ?pre = "hs @ register_listeners opts key"
  let ?n = "if cur = to_double (T + 1) then [OnLimitReached] else []"
  let ?h = "SetHeader ''Retry-After'' (HVal (JNum (ceil_seconds (windowMs opts))))"
  have dec: "decide opts req (JNum T) cur = ?n @ [?h] @ call_handler opts"
    using assms(7-9) by (simp add: decide_positive [OF assms(6)])
  have tr: "rateLimit opts req =
      [StoreIncr key, SetRateLimit ?v] @ ?pre @ ?n @ [?h] @ call_handler opts"
    using rateLimit_counted [OF assms(1-5)] by (simp add: om dec)
  have "header_values ''Retry-After'' (rateLimit opts req) =
        header_values ''Retry-After'' ?pre @ [HVal (JNum (ceil_seconds (windowMs opts)))]
        @ header_values ''Retry-After'' (call_handler opts)"
    unfolding tr by (simp add: header_values_append)
  then have "header_values ''Retry-After'' (rateLimit opts req)
      = [HVal (JNum (ceil_seconds (windowMs opts)))]"
    by (simp only: no_retry_after_before_decide [OF ra] no_retry_after_in_call_handler
        append_Nil append_Nil2)
  then show ?thesis
    using ceil_seconds_real [of "windowMs opts"] ceil_seconds_positive [of "windowMs opts"]
    by blast
qed

theorem retry_after_is_window_length_witness:
  "header_values ''Retry-After'' (rateLimit default_options example_request) = [HVal (JNum 60)]
   \<and> windowMs default_options = 60000"
proof -
  have a: "\<not> skip default_options example_request"
    "keyGenerator default_options example_request = Inr (Plain ''10.0.0.7'')"
    "settle (Plain ''10.0.0.7'') = Inr ''10.0.0.7''"
    "incr_result example_request = IncrOk 6 (Some 1000500)"
    "settle (maxResult default_options example_request) = Inr (JNum 5)"
    "(0::int) < 5" "(5::int) < 6"
    "headers default_options" "\<not> headersSent_block example_request"
    by (simp_all add: default_options_def example_request_def maxResult_def)
  have w: "windowMs default_options = 60000" "ceil_seconds 60000 = 60"
    by (simp_all add: default_options_def ceil_seconds_def)
  from retry_after_is_window_length [OF a] show ?thesis
    by (simp add: w)
qed

section \<open>A failing key generator\<close>

text \<open>
  C9, as stated, does not hold for a key generator that throws: the middleware does not
  call \<open>next(err)\<close>. The call \<open>options.keyGenerator(req, res)\<close> (line 58) stands outside
  the promise chain and outside any \<open>try\<close>, so the exception leaves \<open>rateLimit\<close>.
\<close>

theorem key_generator_throw_counterexample:
  "\<not> skip (default_options\<lparr>keyGenerator := (\<lambda>req. Inl (Error ''no key''))\<rparr>) example_request
   \<and> keyGenerator (default_options\<lparr>keyGenerator := (\<lambda>req. Inl (Error ''no key''))\<rparr>)
        example_request = Inl (Error ''no key'')
   \<and> rateLimit (default_options\<lparr>keyGenerator := (\<lambda>req. Inl (Error ''no key''))\<rparr>)
        example_request = [Throw (Error ''no key'')]
   \<and> NextErr (Error ''no key'')
        \<notin> set (rateLimit (default_options\<lparr>keyGenerator := (\<lambda>req. Inl (Error ''no key''))\<rparr>)
                 example_request)"
  by (simp add: rateLimit_def default_options_def)

text \<open>
  C9, amended. For a request that passes the skip predicate: if the key generator returns
  a promise that is rejected with \<open>err\<close>, the middleware calls \<open>next(err)\<close> and nothing
  else; if the key generator throws \<open>err\<close>, the middleware calls nothing and the exception
  \<open>err\<close> leaves it. In both cases no \<open>store.incr\<close> is called, for any key.
\<close>

theorem key_failure_never_counts:
  assumes "\<not> skip opts req"
  shows "(keyGenerator opts req = Inr (Rejected err) \<longrightarrow> rateLimit opts req = [NextErr err])
       \<and> (keyGenerator opts req = Inl err \<longrightarrow> rateLimit opts req = [Throw err])
       \<and> (keyGenerator opts req = Inr (Rejected err) \<or> keyGenerator opts req = Inl err
            \<longrightarrow> (\<forall>k. StoreIncr k \<notin> set (rateLimit opts req)))"
  using assms by (auto simp: rateLimit_def)

theorem key_failure_never_counts_witness:
  "rateLimit (default_options\<lparr>keyGenerator := (\<lambda>req. Inr (Rejected (Error ''no key'')))\<rparr>)
     example_request = [NextErr (Error ''no key'')]"
proof -
  let ?o = "default_options\<lparr>keyGenerator := (\<lambda>req. Inr (Rejected (Error ''no key'')))\<rparr>"
  have a: "\<not> skip ?o example_request"
    by (simp add: default_options_def)
  have b: "keyGenerator ?o example_request = Inr (Rejected (Error ''no key''))"
    by simp
  from key_failure_never_counts [OF a, of "Error ''no key''"] b show ?thesis
    by blast
qed

section \<open>Compensating decrements\<close>

text \<open>
  C3 fails on the code. With both skip options enabled, the response of a
  request emits \<open>error\<close> and then \<open>finish\<close> with status 200. The
  \<open>error\<close> listener decrements through \<open>decrementKey\<close> and sets the latch; the
  \<open>finish\<close> listener of \<open>skipSuccessfulRequests\<close> (line 130) calls
  \<open>options.store.decrement(key)\<close> directly, without reading the latch: two decrements
  for one request.
\<close>

theorem both_skip_options_decrement_twice:
  "request_lifecycle
     (default_options\<lparr>skipFailedRequests := True, skipSuccessfulRequests := True\<rparr>)
     (example_request\<lparr>incr_result := IncrOk 1 (Some 1000500)\<rparr>)
     [ErrorSignal, Finish 200]
   = [StoreIncr ''10.0.0.7'',
      SetRateLimit \<lparr>limit = JNum 5, current = 1, remaining = JNum 4, resetTime = Some 1000500\<rparr>,
      SetHeader ''X-RateLimit-Limit'' (HVal (JNum 5)),
      SetHeader ''X-RateLimit-Remaining'' (HVal (JNum 4)),
      SetHeader ''Date'' (HGMTString 1000000),
      SetHeader ''X-RateLimit-Reset'' (HVal (JNum 1001)),
      ResOn ''finish'' (FailedFinish ''10.0.0.7''),
      ResOn ''close'' (FailedClose ''10.0.0.7''),
      ResOn ''error'' (FailedError ''10.0.0.7''),
      ResOn ''finish'' (SuccessfulFinish ''10.0.0.7''),
      Next,
      StoreDecrement ''10.0.0.7'',
      StoreDecrement ''10.0.0.7'']
   \<and> decrements
       (request_lifecycle
          (default_options\<lparr>skipFailedRequests := True, skipSuccessfulRequests := True\<rparr>)
          (example_request\<lparr>incr_result := IncrOk 1 (Some 1000500)\<rparr>)
          [ErrorSignal, Finish 200]) = 2"
  by (simp add: request_lifecycle_def decrements_def decrementKey_def
      rateLimit_def default_options_def example_request_def on_key_def after_incr_def
      maxResult_def on_max_def rateLimit_verdict_def write_headers_def setHeader_def
      register_listeners_def decide_def call_handler_def js_plus_def js_minus_def Math_max_def
      ceil_seconds_def to_double_def)

text \<open>The sibling path keeps the latch: with \<open>skipFailedRequests\<close> alone, whatever
  signals fire, one request is decremented at most once.\<close>

lemma decrements_append: "decrements (xs @ ys) = decrements xs + decrements ys"
  by (simp add: decrements_def)

lemma emit_all_no_listeners: "emit_all [] signals d = []"
  by (induction signals arbitrary: d) auto

lemma decrements_Cons: "decrements (e # es) = (if is_decrement e then 1 else 0) + decrements es"
  by (simp add: decrements_def)

lemma decrements_Nil: "decrements [] = 0"
  by (simp add: decrements_def)

lemma failed_listener_latched:
  assumes "l \<in> {FailedFinish key, FailedClose key, FailedError key}"
    and "run_listener l s d = (es, d')"
  shows "decrements es + (if d then 1 else 0) = (if d' then 1 else 0)"
  using assms
  by (cases s) (auto simp: decrementKey_def decrements_def split: if_splits)

lemma failed_emit_latched:
  assumes "\<forall>(name, l) \<in> set ls. l \<in> {FailedFinish key, FailedClose key, FailedError key}"
    and "emit ls s d = (es, d')"
  shows "decrements es + (if d then 1 else 0) = (if d' then 1 else 0)"
  using assms
proof (induction ls arbitrary: d es d')
  case Nil
  then show ?case by (simp add: decrements_def)
next
  case (Cons p ls)
  obtain name l where p: "p = (name, l)" by (cases p)
  show ?case
  proof (cases "name = signal_name s")
    case False
    with Cons p show ?thesis by simp
  next
    case True
    obtain es1 d1 where r: "run_listener l s d = (es1, d1)" by (cases "run_listener l s d")
    obtain es2 d2 where e: "emit ls s d1 = (es2, d2)" by (cases "emit ls s d1")
    from Cons.prems(2) p True r e have es: "es = es1 @ es2" "d' = d2" by simp_all
    from Cons.prems(1) p have "l \<in> {FailedFinish key, FailedClose key, FailedError key}"
      by simp
    then have 1: "decrements es1 + (if d then 1 else 0) = (if d1 then 1 else 0)"
      using r by (rule failed_listener_latched)
    from Cons.prems(1) have "\<forall>(name, l) \<in> set ls. l \<in> {FailedFinish key, FailedClose key, FailedError key}"
      by simp
    then have 2: "decrements es2 + (if d1 then 1 else 0) = (if d2 then 1 else 0)"
      using e by (rule Cons.IH)
    from 1 2 show ?thesis
      by (simp add: es decrements_append split: if_splits)
  qed
qed

lemma failed_emit_all_latched:
  assumes "\<forall>(name, l) \<in> set ls. l \<in> {FailedFinish key, FailedClose key, FailedError key}"
  shows "decrements (emit_all ls signals d) + (if d then 1 else 0) \<le> 1"
proof (induction signals arbitrary: d)
  case Nil
  then show ?case by (simp add: decrements_def)
next
  case (Cons s signals)
  obtain es d1 where e: "emit ls s d = (es, d1)" by (cases "emit ls s d")
  from assms e have "decrements es + (if d then 1 else 0) = (if d1 then 1 else 0)"
    by (rule failed_emit_latched)
  with Cons.IH [of d1] e show ?case
    by (simp add: decrements_append split: if_splits)
qed

lemma registered_append: "registered (xs @ ys) = registered xs @ registered ys"
  by (induction xs rule: registered.induct) auto

lemma registered_headers: "\<forall>e \<in> set hs. is_header e \<Longrightarrow> registered hs = []"
  by (induction hs rule: registered.induct) auto

lemma decrements_headers: "\<forall>e \<in> set hs. is_header e \<Longrightarrow> decrements hs = 0"
  by (induction hs) (auto simp: decrements_Cons decrements_Nil elim: is_header.elims)

lemma registered_decide: "registered (decide opts req mx cur) = []"
  by (simp add: decide_def call_handler_def split: handler_option.splits)

lemma decrements_decide: "decrements (decide opts req mx cur) = 0"
  by (simp add: decide_def call_handler_def decrements_def split: handler_option.splits)

lemma decrements_register_listeners: "decrements (register_listeners opts key) = 0"
  by (simp add: register_listeners_def decrements_def)

lemma failed_only_on_max:
  assumes "\<not> skipSuccessfulRequests opts"
  shows "decrements (on_max opts req key cur rt mx
           @ emit_all (registered (on_max opts req key cur rt mx)) signals False) \<le> 1"
proof (cases rule: on_max_cases [of opts req key cur rt mx])
  case (returns hs)
  have "\<forall>(name, l) \<in> set (registered (register_listeners opts key)).
          l \<in> {FailedFinish key, FailedClose key, FailedError key}"
    using assms by (simp add: register_listeners_def)
  then have "decrements (emit_all (registered (register_listeners opts key)) signals False)
      + (if False then 1 else 0) \<le> 1"
    by (rule failed_emit_all_latched)
  then show ?thesis
    by (simp add: returns(2) decrements_Cons decrements_append registered_append
        registered_headers [OF returns(1)] decrements_headers [OF returns(1)]
        registered_decide decrements_decide decrements_register_listeners)
next
  case (throws hs err)
  then show ?thesis
    by (simp add: decrements_Cons decrements_append decrements_Nil registered_append
        registered_headers decrements_headers emit_all_no_listeners)
qed

lemma failed_requests_decremented_at_most_once:
  assumes "\<not> skipSuccessfulRequests opts"
  shows "decrements (request_lifecycle opts req signals) \<le> 1"
  using failed_only_on_max [OF assms, of req _ _ _ _ signals]
  by (simp add: request_lifecycle_def rateLimit_def on_key_def after_incr_def
      emit_all_no_listeners decrements_Cons decrements_Nil
      split: sum.splits incr_outcome.splits)

section \<open>Validation of the store at construction\<close>

text \<open>
  C4 fails on the code. The check of line 38 asks for \<open>decrement\<close> only under
  \<open>skipFailedRequests\<close>. With \<open>skipSuccessfulRequests\<close> alone and a store that has
  \<open>incr\<close> and \<open>resetKey\<close> but no \<open>decrement\<close>, \<open>RateLimit\<close> returns a middleware;
  that middleware registers the \<open>finish\<close> listener whose body calls
  \<open>options.store.decrement(key)\<close>.
\<close>

theorem store_without_decrement_accepted:
  "RateLimit
     (default_options
        \<lparr> skipSuccessfulRequests := True,
          store := Some \<lparr> incr_is_function = True, resetKey_is_function = True,
                          decrement_is_function = False \<rparr> \<rparr>)
   = Inr (default_options
        \<lparr> skipSuccessfulRequests := True,
          store := Some \<lparr> incr_is_function = True, resetKey_is_function = True,
                          decrement_is_function = False \<rparr> \<rparr>)
   \<and> ResOn ''finish'' (SuccessfulFinish ''10.0.0.7'')
       \<in> set (rateLimit
                (default_options
                   \<lparr> skipSuccessfulRequests := True,
                     store := Some \<lparr> incr_is_function = True, resetKey_is_function = True,
                                     decrement_is_function = False \<rparr> \<rparr>)
                example_request)"
  by (simp add: rateLimit_def default_options_def example_request_def on_key_def after_incr_def
      maxResult_def on_max_def rateLimit_verdict_def write_headers_def setHeader_def
      register_listeners_def decide_def call_handler_def js_plus_def js_minus_def Math_max_def
      ceil_seconds_def to_double_def)

text \<open>What the check does refuse: an injected store without \<open>incr\<close> or without
  \<open>resetKey\<close>, and one without \<open>decrement\<close> under \<open>skipFailedRequests\<close>.\<close>

lemma invalid_store_refused:
  assumes "store opts = Some s"
    and "\<not> incr_is_function s \<or> \<not> resetKey_is_function s
         \<or> (skipFailedRequests opts \<and> \<not> decrement_is_function s)"
  shows "RateLimit opts = Inl ''The store is not valid.''"
  using assms by auto

section \<open>A rejected threshold\<close>

text \<open>
  C5 fails on the code. In \<open>Promise.resolve(maxResult).catch(next).then(max => ...)\<close> the
  \<open>catch\<close> comes before the \<open>then\<close>: after \<open>next(err)\<close> has returned, the chain
  goes on with \<open>max\<close> bound to what \<open>next\<close> returned. With headers disabled and
  \<open>next\<close> returning \<open>undefined\<close>, the middleware calls \<open>next(err)\<close>, assigns a verdict
  with limit \<open>undefined\<close> and remaining \<open>NaN\<close>, and then calls \<open>next()\<close>.
\<close>

theorem rejected_threshold_continues:
  "rateLimit
     (default_options
        \<lparr> max_opt := MaxFunction (\<lambda>req. Rejected (Error ''no limit'')), headers := False \<rparr>)
     example_request
   = [StoreIncr ''10.0.0.7'',
      NextErr (Error ''no limit''),
      SetRateLimit \<lparr>limit = JUndefined, current = 6, remaining = JNaN, resetTime = Some 1000500\<rparr>,
      Next]"
  by (simp add: rateLimit_def default_options_def example_request_def on_key_def after_incr_def
      maxResult_def on_max_def rateLimit_verdict_def write_headers_def register_listeners_def
      decide_def js_plus_def js_minus_def Math_max_def)

text \<open>The same for every request whose threshold is rejected: after \<open>next(err)\<close> the
  callback of \<open>then\<close> runs with \<open>max\<close> bound to the value \<open>next\<close> returned, and
  the verdict is attached.\<close>

lemma rejected_threshold_trace:
  assumes "\<not> skip opts req"
    and "keyGenerator opts req = Inr kv"
    and "settle kv = Inr key"
    and "incr_result req = IncrOk cur rt"
    and "settle (maxResult opts req) = Inl err"
  shows "rateLimit opts req
         = StoreIncr key # NextErr err # on_max opts req key cur rt (next_returns req)"
  using assms by (simp add: rateLimit_def on_key_def after_incr_def)

end
